theory Spec2Isabelle
  imports Main
begin

section \<open>The FastSpring client: data\<close>

text \<open>
  The client of \<^verbatim>\<open>fastspring/api.py\<close> is one class with four configuration fields
  and six public methods, each of which makes one call of the private helper
  \<^verbatim>\<open>_request\<close>. The helper calls four functions of other packages:
  \<^verbatim>\<open>urlparse.urljoin\<close>, \<^verbatim>\<open>xmltodict.unparse\<close>, \<^verbatim>\<open>xmltodict.parse\<close> and
  \<^verbatim>\<open>requests.request\<close>. Their code is not part of the module, so the model takes
  them as the fields of an environment record; the three that can raise return a sum.
  For the statement about the path of the request URL, the join is in addition written
  out from the standard library's \<^verbatim>\<open>urlparse.py\<close>.
\<close>

subsection \<open>Python values\<close>

text \<open>
  The \<^verbatim>\<open>simulate\<close> argument of \<^verbatim>\<open>renew_subscription\<close> is tested for truth and
  formatted with \<^verbatim>\<open>%s\<close>; it ranges over Python's scalars.
\<close>

datatype pyscalar = PyNone | PyBool bool | PyInt int | PyStr string

text \<open>
  A payload mapping is an ordered mapping from field names to strings, lists and nested
  mappings; the parser also produces \<^verbatim>\<open>None\<close> leaves.
\<close>

datatype payload =
    PNone
  | PStr string
  | PList "payload list"
  | PMap "(string \<times> payload) list"

type_synonym mapping = "(string \<times> payload) list"

text \<open>
  The \<^verbatim>\<open>data\<close> argument of \<^verbatim>\<open>_request\<close> is \<^verbatim>\<open>None\<close> (the default), a string
  (renewal) or a mapping (update).
\<close>

datatype reqdata = NoData | Literal string | Fields mapping

subsection \<open>Requests, responses, errors and results\<close>

record http_request =
  verb :: string
  url :: string
  headers :: "(string \<times> string) list"
  auth :: "string \<times> string"
  body :: reqdata

record response =
  status_code :: int
  content :: string
  reason :: string

text \<open>An exception raised inside one of the four library functions.\<close>

datatype lib_error = LibError string

text \<open>
  \<^verbatim>\<open>FastSpringException(detail, status, message, reason)\<close> is the module's own
  exception; an exception of a library function passes through the methods unchanged.
\<close>

datatype exn =
    FastSpringException string int string string
  | Propagated lib_error

text \<open>
  What a method returns: a parsed mapping, the 4-tuple of \<^verbatim>\<open>renew_subscription\<close>, or
  Python's \<^verbatim>\<open>None\<close> when the method body ends without a \<^verbatim>\<open>return\<close>.
\<close>

datatype result =
    Parsed mapping
  | Outcome bool int string string
  | Nothing

record environment =
  urlparse_urljoin :: "string \<Rightarrow> string \<Rightarrow> string"
  xmltodict_unparse :: "reqdata \<Rightarrow> lib_error + string"
  xmltodict_parse :: "string \<Rightarrow> lib_error + mapping"
  requests_request :: "http_request \<Rightarrow> lib_error + response"

text \<open>The fields set by \<^verbatim>\<open>FastSpringAPI.__init__\<close>.\<close>

record FastSpringAPI =
  username :: string
  password :: string
  company :: string
  api_base_url :: string

definition init :: "string \<Rightarrow> string \<Rightarrow> string \<Rightarrow> string option \<Rightarrow> FastSpringAPI" where
  "init user secret tenant base =
     \<lparr>username = user, password = secret, company = tenant,
      api_base_url = (case base of None \<Rightarrow> ''https://api.fastspring.com'' | Some b \<Rightarrow> b)\<rparr>"

section \<open>Truth values and string conversion\<close>

fun truthy :: "pyscalar \<Rightarrow> bool" where
  "truthy PyNone = False"
| "truthy (PyBool b) = b"
| "truthy (PyInt i) = (i \<noteq> 0)"
| "truthy (PyStr s) = (s \<noteq> [])"

fun truthy_data :: "reqdata \<Rightarrow> bool" where
  "truthy_data NoData = False"
| "truthy_data (Literal s) = (s \<noteq> [])"
| "truthy_data (Fields m) = (m \<noteq> [])"

fun str_nat :: "nat \<Rightarrow> string" where
  "str_nat n =
     (if n < 10 then [''0123456789'' ! n]
      else str_nat (n div 10) @ [''0123456789'' ! (n mod 10)])"

definition str_int :: "int \<Rightarrow> string" where
  "str_int i = (if i < 0 then CHR ''-'' # str_nat (nat (- i)) else str_nat (nat i))"

text \<open>The conversion \<^verbatim>\<open>%s\<close> applies: Python's \<^verbatim>\<open>str\<close>.\<close>

fun str :: "pyscalar \<Rightarrow> string" where
  "str PyNone = ''None''"
| "str (PyBool b) = (if b then ''True'' else ''False'')"
| "str (PyInt i) = str_int i"
| "str (PyStr s) = s"

section \<open>The request helper\<close>

text \<open>
  Lines 117 to 120 of \<^verbatim>\<open>_request\<close>: the payload is serialised when it is truthy and
  the caller did not ask to skip serialisation, and is passed on as it is otherwise.
\<close>

definition request_body :: "environment \<Rightarrow> reqdata \<Rightarrow> bool \<Rightarrow> exn + reqdata" where
  "request_body env data skip_unparse =
     (if truthy_data data \<and> \<not> skip_unparse
      then (case xmltodict_unparse env data of
              Inl e \<Rightarrow> Inl (Propagated e)
            | Inr xml \<Rightarrow> Inr (Literal xml))
      else Inr data)"

text \<open>Line 122.\<close>

definition request_path :: "FastSpringAPI \<Rightarrow> string \<Rightarrow> string" where
  "request_path self path = ''/company/'' @ company self @ ''/'' @ path"

text \<open>Lines 123 to 132: the request handed to \<^verbatim>\<open>requests.request\<close>.\<close>

definition outbound :: "environment \<Rightarrow> FastSpringAPI \<Rightarrow> string \<Rightarrow> string \<Rightarrow> reqdata \<Rightarrow> http_request" where
  "outbound env self method path body' =
     \<lparr>verb = method,
      url = urlparse_urljoin env (api_base_url self) (request_path self path),
      headers = [(''Content-type'', ''application/xml'')],
      auth = (username self, password self),
      body = body'\<rparr>"

text \<open>
  \<^verbatim>\<open>_request\<close> as a whole (an Isabelle name cannot start with an underscore).
\<close>

definition request :: "environment \<Rightarrow> FastSpringAPI \<Rightarrow> string \<Rightarrow> string \<Rightarrow> reqdata \<Rightarrow> bool
    \<Rightarrow> exn + (string \<times> int \<times> string \<times> string)" where
  "request env self method path data skip_unparse =
     (case request_body env data skip_unparse of
        Inl e \<Rightarrow> Inl e
      | Inr body' \<Rightarrow>
          (case requests_request env (outbound env self method path body') of
             Inl e \<Rightarrow> Inl (Propagated e)
           | Inr resp \<Rightarrow> Inr (content resp, status_code resp, '''', reason resp)))"

text \<open>The call \<^verbatim>\<open>xmltodict.parse(content)\<close> in return position.\<close>

definition return_parsed :: "environment \<Rightarrow> string \<Rightarrow> exn + result" where
  "return_parsed env content' =
     (case xmltodict_parse env content' of
        Inl e \<Rightarrow> Inl (Propagated e)
      | Inr m \<Rightarrow> Inr (Parsed m))"

section \<open>The public methods\<close>

definition get_order :: "environment \<Rightarrow> FastSpringAPI \<Rightarrow> string \<Rightarrow> exn + result" where
  "get_order env self reference =
     (case request env self ''GET'' (''order/'' @ reference) NoData False of
        Inl e \<Rightarrow> Inl e
      | Inr (content', status, message, reason') \<Rightarrow>
          if content' \<noteq> [] then return_parsed env content'
          else Inl (FastSpringException ''Could not get order information''
                      status message reason'))"

definition generate_coupon :: "environment \<Rightarrow> FastSpringAPI \<Rightarrow> string \<Rightarrow> exn + result" where
  "generate_coupon env self prefix =
     (case request env self ''POST'' (''coupon/'' @ prefix @ ''/generate'') NoData False of
        Inl e \<Rightarrow> Inl e
      | Inr (content', status, message, reason') \<Rightarrow>
          if content' \<noteq> [] then return_parsed env content'
          else Inl (FastSpringException ''Could not generate coupon''
                      status message reason'))"

definition get_subscription :: "environment \<Rightarrow> FastSpringAPI \<Rightarrow> string \<Rightarrow> exn + result" where
  "get_subscription env self reference =
     (case request env self ''GET'' (''subscription/'' @ reference) NoData False of
        Inl e \<Rightarrow> Inl e
      | Inr (content', status, message, reason') \<Rightarrow> return_parsed env content')"

definition update_subscription ::
    "environment \<Rightarrow> FastSpringAPI \<Rightarrow> string \<Rightarrow> payload \<Rightarrow> exn + result" where
  "update_subscription env self reference subscription_data =
     (case request env self ''PUT'' (''subscription/'' @ reference)
             (Fields [(''subscription'', subscription_data)]) False of
        Inl e \<Rightarrow> Inl e
      | Inr (content', status, message, reason') \<Rightarrow>
          if status \<noteq> 200
          then Inl (FastSpringException ''Could not update subscription''
                      status message reason')
          else return_parsed env content')"

definition cancel_subscription :: "environment \<Rightarrow> FastSpringAPI \<Rightarrow> string \<Rightarrow> exn + result" where
  "cancel_subscription env self reference =
     (case request env self ''DELETE'' (''subscription/'' @ reference) NoData False of
        Inl e \<Rightarrow> Inl e
      | Inr (content', status, message, reason') \<Rightarrow>
          if content' \<noteq> [] then return_parsed env content'
          else if \<not> status = 200
          then Inl (FastSpringException ''Could not cancel subscription''
                      status message reason')
          else Inr Nothing)"

text \<open>Lines 102 to 105 of \<^verbatim>\<open>renew_subscription\<close>.\<close>

definition renew_data :: "pyscalar \<Rightarrow> reqdata" where
  "renew_data simulate =
     (if truthy simulate then Literal (''simulate='' @ str simulate) else NoData)"

definition renew_subscription ::
    "environment \<Rightarrow> FastSpringAPI \<Rightarrow> string \<Rightarrow> pyscalar \<Rightarrow> exn + result" where
  "renew_subscription env self reference simulate =
     (case request env self ''POST'' (''subscription/'' @ reference @ ''/renew'')
             (renew_data simulate) True of
        Inl e \<Rightarrow> Inl e
      | Inr (content', status, message, reason') \<Rightarrow>
          if status = 200 then Inr (Outcome True status message reason')
          else Inr (Outcome False status message reason'))"

section \<open>All six methods at once\<close>

text \<open>
  A call of the client, as data, so that a statement can range over every operation:
  \<open>call\<close> dispatches to the method, and \<open>resource\<close> is the path argument the
  method hands to \<^verbatim>\<open>_request\<close>.
\<close>

datatype operation =
    GetOrder string
  | GenerateCoupon string
  | GetSubscription string
  | UpdateSubscription string payload
  | CancelSubscription string
  | RenewSubscription string pyscalar

fun call :: "environment \<Rightarrow> FastSpringAPI \<Rightarrow> operation \<Rightarrow> exn + result" where
  "call env self (GetOrder reference) = get_order env self reference"
| "call env self (GenerateCoupon prefix) = generate_coupon env self prefix"
| "call env self (GetSubscription reference) = get_subscription env self reference"
| "call env self (UpdateSubscription reference subscription_data) =
     update_subscription env self reference subscription_data"
| "call env self (CancelSubscription reference) = cancel_subscription env self reference"
| "call env self (RenewSubscription reference simulate) =
     renew_subscription env self reference simulate"

fun resource :: "operation \<Rightarrow> string" where
  "resource (GetOrder reference) = ''order/'' @ reference"
| "resource (GenerateCoupon prefix) = ''coupon/'' @ prefix @ ''/generate''"
| "resource (GetSubscription reference) = ''subscription/'' @ reference"
| "resource (UpdateSubscription reference subscription_data) = ''subscription/'' @ reference"
| "resource (CancelSubscription reference) = ''subscription/'' @ reference"
| "resource (RenewSubscription reference simulate) = ''subscription/'' @ reference @ ''/renew''"

fun is_renew :: "operation \<Rightarrow> bool" where
  "is_renew (RenewSubscription reference simulate) = True"
| "is_renew other = False"

fun is_cancel :: "operation \<Rightarrow> bool" where
  "is_cancel (CancelSubscription reference) = True"
| "is_cancel other = False"

text \<open>
  The invariant of the data model, read on a call's outcome: an error, a parsed mapping,
  or (for renewal) an outcome tuple; a call that ends with no value and no error has
  neither.
\<close>

fun result_or_error :: "exn + result \<Rightarrow> bool" where
  "result_or_error (Inl e) = True"
| "result_or_error (Inr (Parsed m)) = True"
| "result_or_error (Inr (Outcome ok status message reason')) = True"
| "result_or_error (Inr Nothing) = False"

section \<open>The URL join of the standard library\<close>

text \<open>
  \<^verbatim>\<open>urlparse.urljoin\<close> is a function of Python 2.7's standard library
  (\<^verbatim>\<open>Lib/urlparse.py\<close>), not of the module. What follows is that file for byte
  strings and the default \<^verbatim>\<open>allow_fragments=True\<close>, function by function:
  \<^verbatim>\<open>urlsplit\<close>, \<^verbatim>\<open>_splitnetloc\<close>, \<^verbatim>\<open>_splitparams\<close>, \<^verbatim>\<open>urlparse\<close>,
  \<^verbatim>\<open>urlunsplit\<close>, \<^verbatim>\<open>urlunparse\<close> and \<^verbatim>\<open>urljoin\<close>. The cache of
  \<^verbatim>\<open>urlsplit\<close> does not change its results and is left out. The library's
  variable \<^verbatim>\<open>url\<close> is \<open>url0\<close> here, \<open>url\<close> being a field of the request
  record.
\<close>

definition uses_relative :: "string list" where
  "uses_relative =
     [''ftp'', ''http'', ''gopher'', ''nntp'', ''imap'', ''wais'', ''file'', ''https'',
      ''shttp'', ''mms'', ''prospero'', ''rtsp'', ''rtspu'', '''', ''sftp'', ''svn'',
      ''svn+ssh'']"

definition uses_netloc :: "string list" where
  "uses_netloc =
     [''ftp'', ''http'', ''gopher'', ''nntp'', ''telnet'', ''imap'', ''wais'', ''file'',
      ''mms'', ''https'', ''shttp'', ''snews'', ''prospero'', ''rtsp'', ''rtspu'',
      ''rsync'', '''', ''svn'', ''svn+ssh'', ''sftp'', ''nfs'', ''git'', ''git+ssh'']"

definition uses_params :: "string list" where
  "uses_params =
     [''ftp'', ''hdl'', ''prospero'', ''http'', ''imap'', ''https'', ''shttp'', ''rtsp'',
      ''rtspu'', ''sip'', ''sips'', ''mms'', '''', ''sftp'', ''tel'']"

definition scheme_chars :: string where
  "scheme_chars = ''abcdefghijklmnopqrstuvwxyzABCDEFGHIJKLMNOPQRSTUVWXYZ0123456789+-.''"

text \<open>
  \<^verbatim>\<open>str.lower\<close>: the library applies it to a prefix made of \<open>scheme_chars\<close>
  only, where it maps the ASCII capitals to small letters.
\<close>

definition lower_char :: "char \<Rightarrow> char" where
  "lower_char c =
     (case map_of (zip ''ABCDEFGHIJKLMNOPQRSTUVWXYZ'' ''abcdefghijklmnopqrstuvwxyz'') c of
        None \<Rightarrow> c
      | Some l \<Rightarrow> l)"

definition lower :: "string \<Rightarrow> string" where
  "lower s = map lower_char s"

text \<open>
  \<^verbatim>\<open>s.split(c, 1)\<close> for a string \<open>s\<close> that contains \<open>c\<close>: the part before
  the first \<open>c\<close> and the part after it.
\<close>

definition split_once :: "char \<Rightarrow> string \<Rightarrow> string \<times> string" where
  "split_once c s = (takeWhile (\<lambda>x. x \<noteq> c) s, tl (dropWhile (\<lambda>x. x \<noteq> c) s))"

text \<open>
  \<^verbatim>\<open>_splitnetloc(url, start)\<close>: the host part runs from \<open>start\<close> to the first
  of \<^verbatim>\<open>/\<close>, \<^verbatim>\<open>?\<close> and \<^verbatim>\<open>#\<close>, or to the end.
\<close>

definition splitnetloc :: "string \<Rightarrow> nat \<Rightarrow> string \<times> string" where
  "splitnetloc url0 start =
     (takeWhile (\<lambda>c. c \<notin> set ''/?#'') (drop start url0),
      dropWhile (\<lambda>c. c \<notin> set ''/?#'') (drop start url0))"

text \<open>
  The second half of \<^verbatim>\<open>urlsplit\<close>, which the library writes out twice (once in the
  shortcut for \<^verbatim>\<open>http\<close>, once at the end): the host after \<^verbatim>\<open>//\<close>, the
  \<^verbatim>\<open>ValueError\<close> for a host with one square bracket but not the other, then the
  fragment after \<^verbatim>\<open>#\<close> and the query after \<^verbatim>\<open>?\<close>.
\<close>

definition split_rest ::
    "string \<Rightarrow> string \<Rightarrow> lib_error + (string \<times> string \<times> string \<times> string \<times> string)" where
  "split_rest scheme url0 =
     (let (netloc, url1) = (if take 2 url0 = ''//'' then splitnetloc url0 2 else ('''', url0))
      in if (CHR ''['' \<in> set netloc \<and> CHR '']'' \<notin> set netloc)
            \<or> (CHR '']'' \<in> set netloc \<and> CHR ''['' \<notin> set netloc)
         then Inl (LibError ''ValueError: Invalid IPv6 URL'')
         else let (url2, fragment) =
                    (if CHR ''#'' \<in> set url1 then split_once CHR ''#'' url1 else (url1, ''''));
                  (url3, query) =
                    (if CHR ''?'' \<in> set url2 then split_once CHR ''?'' url2 else (url2, ''''))
              in Inr (scheme, netloc, url3, query, fragment))"

text \<open>
  \<^verbatim>\<open>urlsplit(url, scheme)\<close>. With \<^verbatim>\<open>i = url.find(':')\<close>, \<open>pre\<close> is
  \<^verbatim>\<open>url[:i]\<close> and \<open>tl post\<close> is \<^verbatim>\<open>url[i+1:]\<close>; \<^verbatim>\<open>i > 0\<close> says that the
  colon is there and is not the first character. A prefix of scheme characters is the
  scheme unless what follows the colon is a port number (digits only, at least one).
\<close>

definition urlsplit ::
    "string \<Rightarrow> string \<Rightarrow> lib_error + (string \<times> string \<times> string \<times> string \<times> string)" where
  "urlsplit url0 scheme =
     (let pre = takeWhile (\<lambda>c. c \<noteq> CHR '':'') url0;
          post = dropWhile (\<lambda>c. c \<noteq> CHR '':'') url0
      in if post \<noteq> [] \<and> pre \<noteq> [] then
           if pre = ''http'' then split_rest (lower pre) (tl post)
           else if \<forall>c \<in> set pre. c \<in> set scheme_chars then
             (let rest = tl post
              in if rest = [] \<or> (\<exists>c \<in> set rest. c \<notin> set ''0123456789'')
                 then split_rest (lower pre) rest
                 else split_rest scheme url0)
           else split_rest scheme url0
         else split_rest scheme url0)"

text \<open>
  \<^verbatim>\<open>_splitparams(url)\<close>: the parameters start at the first \<^verbatim>\<open>;\<close> of the last
  path segment. \<open>tail\<close> is the text after the last slash. Without a slash and
  without a semicolon, \<^verbatim>\<open>find\<close> gives \<open>-1\<close> and the slices are
  \<^verbatim>\<open>url[:-1]\<close> and \<^verbatim>\<open>url[0:]\<close>.
\<close>

definition splitparams :: "string \<Rightarrow> string \<times> string" where
  "splitparams url0 =
     (if CHR ''/'' \<in> set url0 then
        (let tail = rev (takeWhile (\<lambda>c. c \<noteq> CHR ''/'') (rev url0))
         in if CHR '';'' \<in> set tail
            then (let i = length url0 - length tail + length (takeWhile (\<lambda>c. c \<noteq> CHR '';'') tail)
                  in (take i url0, drop (i + 1) url0))
            else (url0, ''''))
      else if CHR '';'' \<in> set url0 then split_once CHR '';'' url0
      else (butlast url0, url0))"

definition urlparse ::
    "string \<Rightarrow> string
      \<Rightarrow> lib_error + (string \<times> string \<times> string \<times> string \<times> string \<times> string)" where
  "urlparse url0 scheme =
     (case urlsplit url0 scheme of
        Inl e \<Rightarrow> Inl e
      | Inr (scheme', netloc, url', query, fragment) \<Rightarrow>
          (let (url'', params) =
                 (if scheme' \<in> set uses_params \<and> CHR '';'' \<in> set url'
                  then splitparams url' else (url', ''''))
           in Inr (scheme', netloc, url'', params, query, fragment)))"

definition urlunsplit :: "string \<times> string \<times> string \<times> string \<times> string \<Rightarrow> string" where
  "urlunsplit data =
     (case data of (scheme, netloc, url0, query, fragment) \<Rightarrow>
        (let url1 = (if netloc \<noteq> [] \<or> (scheme \<noteq> [] \<and> scheme \<in> set uses_netloc \<and> take 2 url0 \<noteq> ''//'')
                     then ''//'' @ netloc @ (if url0 \<noteq> [] \<and> take 1 url0 \<noteq> ''/'' then ''/'' @ url0 else url0)
                     else url0);
             url2 = (if scheme \<noteq> [] then scheme @ '':'' @ url1 else url1);
             url3 = (if query \<noteq> [] then url2 @ ''?'' @ query else url2)
         in if fragment \<noteq> [] then url3 @ ''#'' @ fragment else url3))"

definition urlunparse ::
    "string \<times> string \<times> string \<times> string \<times> string \<times> string \<Rightarrow> string" where
  "urlunparse data =
     (case data of (scheme, netloc, url0, params, query, fragment) \<Rightarrow>
        urlunsplit (scheme, netloc, (if params \<noteq> [] then url0 @ '';'' @ params else url0),
                    query, fragment))"

text \<open>
  \<^verbatim>\<open>urljoin(base, url)\<close>, down to its test \<^verbatim>\<open>if path[:1] == '/'\<close>. A reference
  whose path does not start with a slash is resolved against the path of the base by
  the rest of the function; the client never passes one (its reference starts with
  \<^verbatim>\<open>/company/\<close>), and the model stops there with \<open>RelativeReference\<close>.
\<close>

datatype joined = Joined string | JoinRaised lib_error | RelativeReference

definition urljoin :: "string \<Rightarrow> string \<Rightarrow> joined" where
  "urljoin base url0 =
     (if base = [] then Joined url0
      else if url0 = [] then Joined base
      else case urlparse base '''' of
        Inl e \<Rightarrow> JoinRaised e
      | Inr (bscheme, bnetloc, bpath, bparams, bquery, bfragment) \<Rightarrow>
          (case urlparse url0 bscheme of
             Inl e \<Rightarrow> JoinRaised e
           | Inr (scheme, netloc, path, params, query, fragment) \<Rightarrow>
               if scheme \<noteq> bscheme \<or> scheme \<notin> set uses_relative then Joined url0
               else if scheme \<in> set uses_netloc \<and> netloc \<noteq> []
               then Joined (urlunparse (scheme, netloc, path, params, query, fragment))
               else (let netloc' = (if scheme \<in> set uses_netloc then bnetloc else netloc)
                     in if take 1 path = ''/''
                        then Joined (urlunparse (scheme, netloc', path, params, query, fragment))
                        else RelativeReference)))"

text \<open>The path component of a URL: \<^verbatim>\<open>urlsplit(u).path\<close>.\<close>

definition url_path :: "string \<Rightarrow> string option" where
  "url_path u =
     (case urlsplit u '''' of
        Inl e \<Rightarrow> None
      | Inr (scheme, netloc, path, query, fragment) \<Rightarrow> Some path)"

text \<open>
  An environment joins as the library does when its join gives the URL that
  \<open>urljoin\<close> returns, wherever \<open>urljoin\<close> returns one.
\<close>

definition joins_as_urlparse :: "environment \<Rightarrow> bool" where
  "joins_as_urlparse env \<longleftrightarrow>
     (\<forall>base ref u. urljoin base ref = Joined u \<longrightarrow> urlparse_urljoin env base ref = u)"

section \<open>Stand-ins for the other library functions\<close>

text \<open>
  For running the model on concrete inputs. \<open>joined_url\<close> is \<open>urljoin\<close> as a
  plain function (the empty string where \<open>urljoin\<close> returns no URL).
\<close>

definition joined_url :: "string \<Rightarrow> string \<Rightarrow> string" where
  "joined_url base ref =
     (case urljoin base ref of
        Joined u \<Rightarrow> u
      | JoinRaised e \<Rightarrow> []
      | RelativeReference \<Rightarrow> [])"

text \<open>
  A parser that accepts a body starting with \<^verbatim>\<open><\<close> and rejects every other one, the
  empty body too, as a markup parser does; a serialiser with a fixed document.
\<close>

definition markup_parse :: "string \<Rightarrow> lib_error + mapping" where
  "markup_parse s =
     (if take 1 s = ''<'' then Inr [(''document'', PStr s)]
      else Inl (LibError ''ExpatError''))"

definition markup_unparse :: "reqdata \<Rightarrow> lib_error + string" where
  "markup_unparse d = Inr ''<subscription></subscription>''"

definition reply :: "int \<Rightarrow> string \<Rightarrow> string \<Rightarrow> response" where
  "reply status body' phrase = \<lparr>status_code = status, content = body', reason = phrase\<rparr>"

text \<open>An environment whose server answers every request with the same response.\<close>

definition server :: "response \<Rightarrow> environment" where
  "server resp =
     \<lparr>urlparse_urljoin = joined_url,
      xmltodict_unparse = markup_unparse,
      xmltodict_parse = markup_parse,
      requests_request = (\<lambda>req. Inr resp)\<rparr>"

text \<open>A server that reports the body it received in the reason phrase of its answer.\<close>

definition body_reporter :: environment where
  "body_reporter =
     \<lparr>urlparse_urljoin = joined_url,
      xmltodict_unparse = markup_unparse,
      xmltodict_parse = markup_parse,
      requests_request =
        (\<lambda>req. case body req of
                 NoData \<Rightarrow> Inr (reply 200 '''' ''no body'')
               | Literal s \<Rightarrow> Inr (reply 200 '''' s)
               | Fields m \<Rightarrow> Inr (reply 400 '''' ''mapping''))\<rparr>"

definition acme :: FastSpringAPI where
  "acme = init ''user'' ''secret'' ''acme'' None"

section \<open>Facts about the request helper\<close>

lemma request_body_NoData: "request_body env NoData skip_unparse = Inr NoData"
  by (simp add: request_body_def)

lemma request_body_skip: "request_body env data True = Inr data"
  by (simp add: request_body_def)

lemma request_body_Fields:
  "xmltodict_unparse env (Fields ((k, v) # kvs)) = Inr xml
    \<Longrightarrow> request_body env (Fields ((k, v) # kvs)) False = Inr (Literal xml)"
  by (simp add: request_body_def)

lemma request_answered:
  assumes "request_body env data skip_unparse = Inr b"
      and "requests_request env (outbound env self method path b) = Inr resp"
  shows "request env self method path data skip_unparse
           = Inr (content resp, status_code resp, '''', reason resp)"
  using assms by (simp add: request_def)

lemma request_returns:
  assumes "request env self method path data skip_unparse = Inr (c, s, m, r)"
  shows "\<exists>b resp. request_body env data skip_unparse = Inr b
           \<and> requests_request env (outbound env self method path b) = Inr resp
           \<and> c = content resp \<and> s = status_code resp \<and> m = '''' \<and> r = reason resp"
  using assms by (auto simp: request_def split: sum.splits)

lemma request_raises:
  "request env self method path data skip_unparse = Inl e \<Longrightarrow> \<exists>l. e = Propagated l"
  by (auto simp: request_def request_body_def split: sum.splits if_splits)

lemma return_parsed_raises: "return_parsed env c = Inl e \<Longrightarrow> \<exists>l. e = Propagated l"
  by (auto simp: return_parsed_def split: sum.splits)

lemma return_parsed_returns: "return_parsed env c = Inr v \<Longrightarrow> \<exists>m. v = Parsed m"
  by (auto simp: return_parsed_def split: sum.splits)

section \<open>Renewal\<close>

lemma renew_subscription_unfolded:
  "renew_subscription env self reference simulate =
     (case requests_request env
             (outbound env self ''POST'' (''subscription/'' @ reference @ ''/renew'')
                (renew_data simulate)) of
        Inl e \<Rightarrow> Inl (Propagated e)
      | Inr resp \<Rightarrow>
          Inr (Outcome (status_code resp = 200) (status_code resp) '''' (reason resp)))"
  by (simp add: renew_subscription_def request_def request_body_skip split: sum.splits)

text \<open>
  C1. Whatever the reference and the simulate argument, once the server has answered
  the renewal request with a response, \<^verbatim>\<open>renew_subscription\<close> returns and does not
  raise: the tuple is \<^verbatim>\<open>(True, 200, "", reason)\<close> when the status is 200 and
  \<^verbatim>\<open>(False, status, "", reason)\<close> for every other status.
\<close>

theorem renew_subscription_never_raises:
  assumes "requests_request env
             (outbound env self ''POST'' (''subscription/'' @ reference @ ''/renew'')
                (renew_data simulate)) = Inr resp"
  shows "(status_code resp = 200 \<longrightarrow>
            renew_subscription env self reference simulate
              = Inr (Outcome True 200 '''' (reason resp)))
       \<and> (status_code resp \<noteq> 200 \<longrightarrow>
            renew_subscription env self reference simulate
              = Inr (Outcome False (status_code resp) '''' (reason resp)))"
  using assms by (simp add: renew_subscription_unfolded)

theorem renew_subscription_never_raises_witness:
  "renew_subscription (server \<lparr>status_code = 200, content = ''<ok/>'', reason = ''OK''\<rparr>)
       acme ''SUB1'' PyNone
     = Inr (Outcome True 200 '''' ''OK'')
   \<and> renew_subscription
       (server \<lparr>status_code = 500, content = '''', reason = ''Internal Server Error''\<rparr>)
       acme ''SUB1'' (PyStr ''true'')
     = Inr (Outcome False 500 '''' ''Internal Server Error'')"
proof
  have "requests_request (server \<lparr>status_code = 200, content = ''<ok/>'', reason = ''OK''\<rparr>)
          (outbound (server \<lparr>status_code = 200, content = ''<ok/>'', reason = ''OK''\<rparr>) acme
             ''POST'' (''subscription/'' @ ''SUB1'' @ ''/renew'') (renew_data PyNone))
        = Inr \<lparr>status_code = 200, content = ''<ok/>'', reason = ''OK''\<rparr>"
    by (simp add: server_def)
  from renew_subscription_never_raises [OF this]
  show "renew_subscription (server \<lparr>status_code = 200, content = ''<ok/>'', reason = ''OK''\<rparr>)
          acme ''SUB1'' PyNone = Inr (Outcome True 200 '''' ''OK'')"
    by simp
next
  have "requests_request
          (server \<lparr>status_code = 500, content = '''', reason = ''Internal Server Error''\<rparr>)
          (outbound
             (server \<lparr>status_code = 500, content = '''', reason = ''Internal Server Error''\<rparr>)
             acme ''POST'' (''subscription/'' @ ''SUB1'' @ ''/renew'') (renew_data (PyStr ''true'')))
        = Inr \<lparr>status_code = 500, content = '''', reason = ''Internal Server Error''\<rparr>"
    by (simp add: server_def)
  from renew_subscription_never_raises [OF this]
  show "renew_subscription
          (server \<lparr>status_code = 500, content = '''', reason = ''Internal Server Error''\<rparr>)
          acme ''SUB1'' (PyStr ''true'')
        = Inr (Outcome False 500 '''' ''Internal Server Error'')"
    by simp
qed

section \<open>Update\<close>

text \<open>
  C4. For every reference and subscription data, once the payload has been serialised
  and the server has answered the PUT request: a response with status 200 whose body
  the parser accepts makes \<^verbatim>\<open>update_subscription\<close> return the parsed mapping, and a
  response with any other status makes it raise the operation error with exactly that
  status and reason.
\<close>

theorem update_subscription_status:
  assumes "xmltodict_unparse env (Fields [(''subscription'', subscription_data)]) = Inr xml"
      and "requests_request env
             (outbound env self ''PUT'' (''subscription/'' @ reference) (Literal xml)) = Inr resp"
  shows "(status_code resp = 200 \<and> xmltodict_parse env (content resp) = Inr m \<longrightarrow>
            update_subscription env self reference subscription_data = Inr (Parsed m))
       \<and> (status_code resp \<noteq> 200 \<longrightarrow>
            update_subscription env self reference subscription_data
              = Inl (FastSpringException ''Could not update subscription''
                       (status_code resp) '''' (reason resp)))"
proof -
  have "request env self ''PUT'' (''subscription/'' @ reference)
          (Fields [(''subscription'', subscription_data)]) False
        = Inr (content resp, status_code resp, '''', reason resp)"
    using assms by (simp add: request_def request_body_def)
  then show ?thesis
    by (simp add: update_subscription_def return_parsed_def)
qed

theorem update_subscription_status_witness:
  "update_subscription (server (reply 200 ''<subscription/>'' ''OK'')) acme ''SUB1''
       (PMap [(''tags'', PStr ''gold'')])
     = Inr (Parsed [(''document'', PStr ''<subscription/>'')])
   \<and> update_subscription (server (reply 404 ''<error/>'' ''Not Found'')) acme ''SUB1''
       (PMap [(''tags'', PStr ''gold'')])
     = Inl (FastSpringException ''Could not update subscription'' 404 '''' ''Not Found'')"
proof
  let ?d = "PMap [(''tags'', PStr ''gold'')]"
  let ?xml = "''<subscription></subscription>''"
  have u: "xmltodict_unparse (server (reply 200 ''<subscription/>'' ''OK''))
             (Fields [(''subscription'', ?d)]) = Inr ?xml"
    by (simp add: server_def markup_unparse_def)
  have t: "requests_request (server (reply 200 ''<subscription/>'' ''OK''))
             (outbound (server (reply 200 ''<subscription/>'' ''OK'')) acme ''PUT''
                (''subscription/'' @ ''SUB1'') (Literal ?xml))
           = Inr (reply 200 ''<subscription/>'' ''OK'')"
    by (simp add: server_def)
  have p: "xmltodict_parse (server (reply 200 ''<subscription/>'' ''OK''))
             (content (reply 200 ''<subscription/>'' ''OK''))
           = Inr [(''document'', PStr ''<subscription/>'')]"
    by (simp add: server_def reply_def markup_parse_def)
  from update_subscription_status [OF u t, of "[(''document'', PStr ''<subscription/>'')]"] p
  show "update_subscription (server (reply 200 ''<subscription/>'' ''OK'')) acme ''SUB1'' ?d
          = Inr (Parsed [(''document'', PStr ''<subscription/>'')])"
    by (simp add: reply_def)
next
  let ?d = "PMap [(''tags'', PStr ''gold'')]"
  let ?xml = "''<subscription></subscription>''"
  have u: "xmltodict_unparse (server (reply 404 ''<error/>'' ''Not Found''))
             (Fields [(''subscription'', ?d)]) = Inr ?xml"
    by (simp add: server_def markup_unparse_def)
  have t: "requests_request (server (reply 404 ''<error/>'' ''Not Found''))
             (outbound (server (reply 404 ''<error/>'' ''Not Found'')) acme ''PUT''
                (''subscription/'' @ ''SUB1'') (Literal ?xml))
           = Inr (reply 404 ''<error/>'' ''Not Found'')"
    by (simp add: server_def)
  from update_subscription_status [OF u t]
  show "update_subscription (server (reply 404 ''<error/>'' ''Not Found'')) acme ''SUB1'' ?d
          = Inl (FastSpringException ''Could not update subscription'' 404 '''' ''Not Found'')"
    by (simp add: reply_def)
qed

section \<open>Fetching a subscription\<close>

lemma get_subscription_unfolded:
  "get_subscription env self reference =
     (case requests_request env
             (outbound env self ''GET'' (''subscription/'' @ reference) NoData) of
        Inl e \<Rightarrow> Inl (Propagated e)
      | Inr resp \<Rightarrow>
          (case xmltodict_parse env (content resp) of
             Inl e \<Rightarrow> Inl (Propagated e)
           | Inr m \<Rightarrow> Inr (Parsed m)))"
  by (simp add: get_subscription_def request_def request_body_NoData return_parsed_def
      split: sum.splits)

text \<open>
  C6. \<^verbatim>\<open>get_subscription\<close> tests nothing: whatever the status code of the response
  and whether or not its body is empty, the result is what the parser makes of the body,
  the parsed mapping or the parser's own exception; and no call of
  \<^verbatim>\<open>get_subscription\<close> raises the operation error.
\<close>

theorem get_subscription_unchecked:
  "(requests_request env (outbound env self ''GET'' (''subscription/'' @ reference) NoData)
      = Inr resp \<longrightarrow>
      get_subscription env self reference =
        (case xmltodict_parse env (content resp) of
           Inl e \<Rightarrow> Inl (Propagated e)
         | Inr m \<Rightarrow> Inr (Parsed m)))
   \<and> get_subscription env self reference \<noteq> Inl (FastSpringException detail status message reason')"
  by (simp add: get_subscription_unfolded split: sum.splits)

theorem get_subscription_unchecked_witness:
  "get_subscription (server (reply 404 '''' ''Not Found'')) acme ''SUB1''
     = Inl (Propagated (LibError ''ExpatError''))
   \<and> get_subscription (server (reply 500 ''<subscription/>'' ''Internal Server Error'')) acme
       ''SUB1''
     = Inr (Parsed [(''document'', PStr ''<subscription/>'')])"
proof
  have "requests_request (server (reply 404 '''' ''Not Found''))
          (outbound (server (reply 404 '''' ''Not Found'')) acme ''GET''
             (''subscription/'' @ ''SUB1'') NoData)
        = Inr (reply 404 '''' ''Not Found'')"
    by (simp add: server_def)
  with get_subscription_unchecked
    [of "server (reply 404 '''' ''Not Found'')" acme "''SUB1''" "reply 404 '''' ''Not Found''"]
  show "get_subscription (server (reply 404 '''' ''Not Found'')) acme ''SUB1''
          = Inl (Propagated (LibError ''ExpatError''))"
    by (simp add: server_def reply_def markup_parse_def)
next
  have "requests_request (server (reply 500 ''<subscription/>'' ''Internal Server Error''))
          (outbound (server (reply 500 ''<subscription/>'' ''Internal Server Error'')) acme
             ''GET'' (''subscription/'' @ ''SUB1'') NoData)
        = Inr (reply 500 ''<subscription/>'' ''Internal Server Error'')"
    by (simp add: server_def)
  with get_subscription_unchecked
    [of "server (reply 500 ''<subscription/>'' ''Internal Server Error'')" acme "''SUB1''"
        "reply 500 ''<subscription/>'' ''Internal Server Error''"]
  show "get_subscription (server (reply 500 ''<subscription/>'' ''Internal Server Error''))
          acme ''SUB1''
        = Inr (Parsed [(''document'', PStr ''<subscription/>'')])"
    by (simp add: server_def reply_def markup_parse_def)
qed

section \<open>The simulate flag\<close>

text \<open>
  C10. \<^verbatim>\<open>renew_subscription\<close> sends the request whose body is the string
  \<^verbatim>\<open>simulate=<value>\<close> when the simulate argument is truthy, and the request with no
  body when it is falsy; a falsy argument, which \<^verbatim>\<open>None\<close>, the empty string,
  \<^verbatim>\<open>False\<close> and \<^verbatim>\<open>0\<close> all are, gives the same call as the omitted argument
  (the default \<^verbatim>\<open>None\<close>).
\<close>

theorem renew_subscription_simulate:
  "renew_subscription env self reference simulate =
     (case requests_request env
             (outbound env self ''POST'' (''subscription/'' @ reference @ ''/renew'')
                (if truthy simulate then Literal (''simulate='' @ str simulate) else NoData)) of
        Inl e \<Rightarrow> Inl (Propagated e)
      | Inr resp \<Rightarrow>
          Inr (Outcome (status_code resp = 200) (status_code resp) '''' (reason resp)))
   \<and> (\<not> truthy simulate \<longrightarrow>
        renew_subscription env self reference simulate
          = renew_subscription env self reference PyNone)
   \<and> \<not> truthy PyNone \<and> \<not> truthy (PyStr '''') \<and> \<not> truthy (PyBool False) \<and> \<not> truthy (PyInt 0)"
  by (simp add: renew_subscription_unfolded renew_data_def)

theorem renew_subscription_simulate_witness:
  "renew_subscription body_reporter acme ''SUB1'' (PyStr ''true'')
     = Inr (Outcome True 200 '''' ''simulate=true'')
   \<and> renew_subscription body_reporter acme ''SUB1'' (PyInt 1)
     = Inr (Outcome True 200 '''' ''simulate=1'')
   \<and> renew_subscription body_reporter acme ''SUB1'' (PyInt 0)
     = Inr (Outcome True 200 '''' ''no body'')
   \<and> renew_subscription body_reporter acme ''SUB1'' (PyInt 0)
     = renew_subscription body_reporter acme ''SUB1'' PyNone"
proof (intro conjI)
  show "renew_subscription body_reporter acme ''SUB1'' (PyStr ''true'')
          = Inr (Outcome True 200 '''' ''simulate=true'')"
    using renew_subscription_simulate [of body_reporter acme "''SUB1''" "PyStr ''true''"]
    by (simp add: body_reporter_def outbound_def reply_def)
  show "renew_subscription body_reporter acme ''SUB1'' (PyInt 1)
          = Inr (Outcome True 200 '''' ''simulate=1'')"
    using renew_subscription_simulate [of body_reporter acme "''SUB1''" "PyInt 1"]
    by (simp add: body_reporter_def outbound_def reply_def str_int_def)
  show "renew_subscription body_reporter acme ''SUB1'' (PyInt 0)
          = Inr (Outcome True 200 '''' ''no body'')"
    using renew_subscription_simulate [of body_reporter acme "''SUB1''" "PyInt 0"]
    by (simp add: body_reporter_def outbound_def reply_def)
  show "renew_subscription body_reporter acme ''SUB1'' (PyInt 0)
          = renew_subscription body_reporter acme ''SUB1'' PyNone"
    using renew_subscription_simulate [of body_reporter acme "''SUB1''" "PyInt 0"]
    by (elim conjE) simp
qed

section \<open>The protocol message\<close>

lemma request_message:
  "request env self method path data skip_unparse = Inr (c, s, m, r) \<Longrightarrow> m = ''''"
  by (auto simp: request_def split: sum.splits)

lemma get_order_message:
  "get_order env self reference = Inl (FastSpringException d s m r) \<Longrightarrow> m = ''''"
  by (auto simp: get_order_def split: sum.splits if_splits
      dest: request_message request_raises return_parsed_raises)

lemma generate_coupon_message:
  "generate_coupon env self prefix = Inl (FastSpringException d s m r) \<Longrightarrow> m = ''''"
  by (auto simp: generate_coupon_def split: sum.splits if_splits
      dest: request_message request_raises return_parsed_raises)

lemma get_subscription_message:
  "get_subscription env self reference = Inl (FastSpringException d s m r) \<Longrightarrow> m = ''''"
  by (auto simp: get_subscription_def split: sum.splits if_splits
      dest: request_message request_raises return_parsed_raises)

lemma update_subscription_message:
  "update_subscription env self reference subscription_data
     = Inl (FastSpringException d s m r) \<Longrightarrow> m = ''''"
  by (auto simp: update_subscription_def split: sum.splits if_splits
      dest: request_message request_raises return_parsed_raises)

lemma cancel_subscription_message:
  "cancel_subscription env self reference = Inl (FastSpringException d s m r) \<Longrightarrow> m = ''''"
  by (auto simp: cancel_subscription_def split: sum.splits if_splits
      dest: request_message request_raises return_parsed_raises)

lemma renew_subscription_raises:
  "renew_subscription env self reference simulate = Inl e \<Longrightarrow> \<exists>l. e = Propagated l"
  by (auto simp: renew_subscription_unfolded split: sum.splits)

lemma renew_subscription_message:
  "renew_subscription env self reference simulate = Inr (Outcome ok s m r) \<Longrightarrow> m = ''''"
  by (auto simp: renew_subscription_unfolded split: sum.splits)

text \<open>
  C8. For every method, path, payload and skip flag, a 4-tuple that \<^verbatim>\<open>_request\<close>
  returns is the body, status code and reason of the response, with the empty string as
  its protocol message. Hence, for every operation, the message of a raised
  \<^verbatim>\<open>FastSpringException\<close> is the empty string, and so is the message of the tuple
  \<^verbatim>\<open>renew_subscription\<close> returns.
\<close>

theorem request_message_empty:
  "(request env self method path data skip_unparse = Inr (c, s, m, r) \<longrightarrow>
      m = '''' \<and> (\<exists>b resp. requests_request env (outbound env self method path b) = Inr resp
                    \<and> c = content resp \<and> s = status_code resp \<and> r = reason resp))
   \<and> (call env self op = Inl (FastSpringException d' s' m' r') \<longrightarrow> m' = '''')
   \<and> (renew_subscription env self reference simulate = Inr (Outcome ok s'' m'' r'') \<longrightarrow>
        m'' = '''')"
proof (intro conjI impI)
  assume "request env self method path data skip_unparse = Inr (c, s, m, r)"
  from request_returns [OF this]
  show "m = ''''"
    and "\<exists>b resp. requests_request env (outbound env self method path b) = Inr resp
           \<and> c = content resp \<and> s = status_code resp \<and> r = reason resp"
    by blast+
next
  assume "call env self op = Inl (FastSpringException d' s' m' r')"
  then show "m' = ''''"
    by (cases op)
      (auto dest: get_order_message generate_coupon_message get_subscription_message
         update_subscription_message cancel_subscription_message renew_subscription_raises)
next
  assume "renew_subscription env self reference simulate = Inr (Outcome ok s'' m'' r'')"
  then show "m'' = ''''"
    by (rule renew_subscription_message)
qed

theorem request_message_empty_witness:
  "request (server (reply 404 '''' ''Not Found'')) acme ''GET'' ''order/ORD1'' NoData False
     = Inr ('''', 404, '''', ''Not Found'')
   \<and> call (server (reply 404 '''' ''Not Found'')) acme (GetOrder ''ORD1'')
     = Inl (FastSpringException ''Could not get order information'' 404 '''' ''Not Found'')
   \<and> renew_subscription (server (reply 404 '''' ''Not Found'')) acme ''SUB1'' PyNone
     = Inr (Outcome False 404 '''' ''Not Found'')"
proof -
  let ?env = "server (reply 404 '''' ''Not Found'')"
  have a: "\<exists>m. request ?env acme ''GET'' ''order/ORD1'' NoData False
             = Inr ('''', 404, m, ''Not Found'')"
    by (simp add: request_def request_body_NoData server_def reply_def)
  have b: "\<exists>m. call ?env acme (GetOrder ''ORD1'')
             = Inl (FastSpringException ''Could not get order information'' 404 m ''Not Found'')"
    by (simp add: get_order_def request_def request_body_NoData server_def reply_def)
  have c: "\<exists>m. renew_subscription ?env acme ''SUB1'' PyNone
             = Inr (Outcome False 404 m ''Not Found'')"
    by (simp add: renew_subscription_unfolded server_def reply_def)
  from a b c request_message_empty [of ?env acme _ _ _ _ _ _ _ _ "GetOrder ''ORD1''"]
  show ?thesis
    by (metis request_message_empty)
qed

section \<open>Cancelling, and the read operations that test the body\<close>

lemma cancel_subscription_unfolded:
  "cancel_subscription env self reference =
     (case requests_request env
             (outbound env self ''DELETE'' (''subscription/'' @ reference) NoData) of
        Inl e \<Rightarrow> Inl (Propagated e)
      | Inr resp \<Rightarrow>
          if content resp \<noteq> [] then
            (case xmltodict_parse env (content resp) of
               Inl e \<Rightarrow> Inl (Propagated e)
             | Inr m \<Rightarrow> Inr (Parsed m))
          else if status_code resp \<noteq> 200 then
            Inl (FastSpringException ''Could not cancel subscription''
                   (status_code resp) '''' (reason resp))
          else Inr Nothing)"
  by (simp add: cancel_subscription_def request_def request_body_NoData return_parsed_def
      split: sum.splits)

lemma get_order_unfolded:
  "get_order env self reference =
     (case requests_request env (outbound env self ''GET'' (''order/'' @ reference) NoData) of
        Inl e \<Rightarrow> Inl (Propagated e)
      | Inr resp \<Rightarrow>
          if content resp \<noteq> [] then
            (case xmltodict_parse env (content resp) of
               Inl e \<Rightarrow> Inl (Propagated e)
             | Inr m \<Rightarrow> Inr (Parsed m))
          else Inl (FastSpringException ''Could not get order information''
                      (status_code resp) '''' (reason resp)))"
  by (simp add: get_order_def request_def request_body_NoData return_parsed_def
      split: sum.splits)

lemma generate_coupon_unfolded:
  "generate_coupon env self prefix =
     (case requests_request env
             (outbound env self ''POST'' (''coupon/'' @ prefix @ ''/generate'') NoData) of
        Inl e \<Rightarrow> Inl (Propagated e)
      | Inr resp \<Rightarrow>
          if content resp \<noteq> [] then
            (case xmltodict_parse env (content resp) of
               Inl e \<Rightarrow> Inl (Propagated e)
             | Inr m \<Rightarrow> Inr (Parsed m))
          else Inl (FastSpringException ''Could not generate coupon''
                      (status_code resp) '''' (reason resp)))"
  by (simp add: generate_coupon_def request_def request_body_NoData return_parsed_def
      split: sum.splits)

text \<open>
  C3, as stated, fails on a response whose body is not empty and is not markup: the
  parser raises, and \<^verbatim>\<open>cancel_subscription\<close> passes the parser's exception on
  instead of returning a mapping.
\<close>

theorem cancel_subscription_unparsable_body:
  "content (reply 200 ''not markup'' ''OK'') \<noteq> []
   \<and> cancel_subscription (server (reply 200 ''not markup'' ''OK'')) acme ''SUB1''
     = Inl (Propagated (LibError ''ExpatError''))"
  by (simp add: cancel_subscription_unfolded server_def reply_def markup_parse_def)

text \<open>
  C3, amended. For every reference, once the server has answered the DELETE request:
  an empty body with status 200 makes \<^verbatim>\<open>cancel_subscription\<close> return nothing and
  raise nothing; an empty body with another status makes it raise the operation error
  with that status and reason; a non-empty body that the parser accepts makes it return
  the parsed mapping, and a non-empty body that the parser rejects makes it raise the
  parser's exception.
\<close>

theorem cancel_subscription_cases:
  assumes "requests_request env
             (outbound env self ''DELETE'' (''subscription/'' @ reference) NoData) = Inr resp"
  shows "(content resp = [] \<and> status_code resp = 200 \<longrightarrow>
            cancel_subscription env self reference = Inr Nothing)
       \<and> (content resp = [] \<and> status_code resp \<noteq> 200 \<longrightarrow>
            cancel_subscription env self reference
              = Inl (FastSpringException ''Could not cancel subscription''
                       (status_code resp) '''' (reason resp)))
       \<and> (content resp \<noteq> [] \<and> xmltodict_parse env (content resp) = Inr m \<longrightarrow>
            cancel_subscription env self reference = Inr (Parsed m))
       \<and> (content resp \<noteq> [] \<and> xmltodict_parse env (content resp) = Inl e \<longrightarrow>
            cancel_subscription env self reference = Inl (Propagated e))"
  using assms by (simp add: cancel_subscription_unfolded)

theorem cancel_subscription_cases_witness:
  "cancel_subscription (server (reply 200 '''' ''OK'')) acme ''SUB1'' = Inr Nothing
   \<and> cancel_subscription (server (reply 404 '''' ''Not Found'')) acme ''SUB1''
     = Inl (FastSpringException ''Could not cancel subscription'' 404 '''' ''Not Found'')
   \<and> cancel_subscription (server (reply 200 ''<subscription/>'' ''OK'')) acme ''SUB1''
     = Inr (Parsed [(''document'', PStr ''<subscription/>'')])
   \<and> cancel_subscription (server (reply 502 ''Bad Gateway'' ''Bad Gateway'')) acme ''SUB1''
     = Inl (Propagated (LibError ''ExpatError''))"
proof (intro conjI)
  have t: "requests_request (server r)
             (outbound (server r) acme ''DELETE'' (''subscription/'' @ ''SUB1'') NoData) = Inr r"
    for r
    by (simp add: server_def)
  show "cancel_subscription (server (reply 200 '''' ''OK'')) acme ''SUB1'' = Inr Nothing"
    using cancel_subscription_cases [OF t, of "reply 200 '''' ''OK''"]
    by (simp add: reply_def)
  show "cancel_subscription (server (reply 404 '''' ''Not Found'')) acme ''SUB1''
          = Inl (FastSpringException ''Could not cancel subscription'' 404 '''' ''Not Found'')"
    using cancel_subscription_cases [OF t, of "reply 404 '''' ''Not Found''"]
    by (simp add: reply_def)
  show "cancel_subscription (server (reply 200 ''<subscription/>'' ''OK'')) acme ''SUB1''
          = Inr (Parsed [(''document'', PStr ''<subscription/>'')])"
    using cancel_subscription_cases [OF t, of "reply 200 ''<subscription/>'' ''OK''"
        "[(''document'', PStr ''<subscription/>'')]"]
    by (simp add: reply_def server_def markup_parse_def)
  show "cancel_subscription (server (reply 502 ''Bad Gateway'' ''Bad Gateway'')) acme ''SUB1''
          = Inl (Propagated (LibError ''ExpatError''))"
    using cancel_subscription_cases [OF t, of "reply 502 ''Bad Gateway'' ''Bad Gateway''" _
        "LibError ''ExpatError''"]
    by (simp add: reply_def server_def markup_parse_def)
qed

text \<open>
  C5, as stated, fails in the same way: on a response whose body is not empty and is not
  markup, \<^verbatim>\<open>get_order\<close> returns no mapping; the parser's exception comes out.
\<close>

theorem get_order_unparsable_body:
  "content (reply 200 ''not markup'' ''OK'') \<noteq> []
   \<and> get_order (server (reply 200 ''not markup'' ''OK'')) acme ''ORD1''
     = Inl (Propagated (LibError ''ExpatError''))"
  by (simp add: get_order_unfolded server_def reply_def markup_parse_def)

text \<open>
  C5, amended. For every reference, once the server has answered the GET request,
  \<^verbatim>\<open>get_order\<close> raises the operation error, carrying the status, the empty message and
  the reason of the response, exactly when the body is empty; when the body is not
  empty the result is the parser's: the parsed mapping if the parser accepts the body,
  the parser's exception if it does not. So a mapping is returned exactly when the body
  is non-empty and parses. \<^verbatim>\<open>generate_coupon\<close> does the same with its POST request,
  for every prefix.
\<close>

theorem get_order_generate_coupon_cases:
  "(requests_request env (outbound env self ''GET'' (''order/'' @ reference) NoData)
      = Inr resp \<longrightarrow>
      get_order env self reference =
        (if content resp = []
         then Inl (FastSpringException ''Could not get order information''
                     (status_code resp) '''' (reason resp))
         else case xmltodict_parse env (content resp) of
                Inl e \<Rightarrow> Inl (Propagated e)
              | Inr m \<Rightarrow> Inr (Parsed m)))
   \<and> (requests_request env
         (outbound env self ''POST'' (''coupon/'' @ prefix @ ''/generate'') NoData)
      = Inr resp' \<longrightarrow>
      generate_coupon env self prefix =
        (if content resp' = []
         then Inl (FastSpringException ''Could not generate coupon''
                     (status_code resp') '''' (reason resp'))
         else case xmltodict_parse env (content resp') of
                Inl e \<Rightarrow> Inl (Propagated e)
              | Inr m \<Rightarrow> Inr (Parsed m)))"
  by (simp add: get_order_unfolded generate_coupon_unfolded)

theorem get_order_generate_coupon_cases_witness:
  "get_order (server (reply 404 '''' ''Not Found'')) acme ''ORD1''
     = Inl (FastSpringException ''Could not get order information'' 404 '''' ''Not Found'')
   \<and> generate_coupon (server (reply 404 '''' ''Not Found'')) acme ''SPRING''
     = Inl (FastSpringException ''Could not generate coupon'' 404 '''' ''Not Found'')
   \<and> get_order (server (reply 200 ''<order/>'' ''OK'')) acme ''ORD1''
     = Inr (Parsed [(''document'', PStr ''<order/>'')])
   \<and> generate_coupon (server (reply 200 ''<coupon/>'' ''OK'')) acme ''SPRING''
     = Inr (Parsed [(''document'', PStr ''<coupon/>'')])"
proof (intro conjI)
  have g: "requests_request (server r)
             (outbound (server r) acme ''GET'' (''order/'' @ ''ORD1'') NoData) = Inr r"
    and p: "requests_request (server r)
             (outbound (server r) acme ''POST'' (''coupon/'' @ ''SPRING'' @ ''/generate'') NoData)
            = Inr r"
    for r
    by (simp_all add: server_def)
  show "get_order (server (reply 404 '''' ''Not Found'')) acme ''ORD1''
          = Inl (FastSpringException ''Could not get order information'' 404 '''' ''Not Found'')"
    using g [of "reply 404 '''' ''Not Found''"]
      get_order_generate_coupon_cases
        [of "server (reply 404 '''' ''Not Found'')" acme "''ORD1''" "reply 404 '''' ''Not Found''"]
    by (simp add: reply_def)
  show "generate_coupon (server (reply 404 '''' ''Not Found'')) acme ''SPRING''
          = Inl (FastSpringException ''Could not generate coupon'' 404 '''' ''Not Found'')"
    using p [of "reply 404 '''' ''Not Found''"]
      get_order_generate_coupon_cases
        [of "server (reply 404 '''' ''Not Found'')" acme _ _ "''SPRING''"
            "reply 404 '''' ''Not Found''"]
    by (simp add: reply_def)
  show "get_order (server (reply 200 ''<order/>'' ''OK'')) acme ''ORD1''
          = Inr (Parsed [(''document'', PStr ''<order/>'')])"
    using g [of "reply 200 ''<order/>'' ''OK''"]
      get_order_generate_coupon_cases
        [of "server (reply 200 ''<order/>'' ''OK'')" acme "''ORD1''"
            "reply 200 ''<order/>'' ''OK''"]
    by (simp add: reply_def server_def markup_parse_def)
  show "generate_coupon (server (reply 200 ''<coupon/>'' ''OK'')) acme ''SPRING''
          = Inr (Parsed [(''document'', PStr ''<coupon/>'')])"
    using p [of "reply 200 ''<coupon/>'' ''OK''"]
      get_order_generate_coupon_cases
        [of "server (reply 200 ''<coupon/>'' ''OK'')" acme _ _ "''SPRING''"
            "reply 200 ''<coupon/>'' ''OK''"]
    by (simp add: reply_def server_def markup_parse_def)
qed

section \<open>Result or error\<close>

text \<open>
  C2, as stated, fails: \<^verbatim>\<open>cancel_subscription\<close> on a response with an empty body and
  status 200 reaches the end of the method, so the call ends with no mapping, no tuple
  and no error.
\<close>

theorem cancel_subscription_neither:
  "\<not> result_or_error
       (call (server (reply 200 '''' ''OK'')) acme (CancelSubscription ''SUB1''))"
  by (simp add: cancel_subscription_unfolded server_def reply_def)

lemma call_Nothing:
  assumes "call env self op = Inr Nothing"
  shows "\<exists>reference resp. op = CancelSubscription reference
           \<and> requests_request env
               (outbound env self ''DELETE'' (''subscription/'' @ reference) NoData) = Inr resp
           \<and> content resp = [] \<and> status_code resp = 200"
proof (cases op)
  case (CancelSubscription reference)
  with assms show ?thesis
    by (auto simp: cancel_subscription_unfolded split: sum.splits if_splits)
next
  case (GetOrder reference)
  with assms show ?thesis
    by (auto simp: get_order_unfolded split: sum.splits if_splits)
next
  case (GenerateCoupon prefix)
  with assms show ?thesis
    by (auto simp: generate_coupon_unfolded split: sum.splits if_splits)
next
  case (GetSubscription reference)
  with assms show ?thesis
    by (auto simp: get_subscription_unfolded split: sum.splits)
next
  case (UpdateSubscription reference subscription_data)
  with assms show ?thesis
    by (auto simp: update_subscription_def split: sum.splits if_splits
        dest: return_parsed_returns)
next
  case (RenewSubscription reference simulate)
  with assms show ?thesis
    by (auto simp: renew_subscription_unfolded split: sum.splits)
qed

lemma call_Parsed: "call env self op = Inr (Parsed m) \<Longrightarrow> \<not> is_renew op"
  by (cases op) (auto simp: renew_subscription_unfolded split: sum.splits)

lemma call_Outcome: "call env self op = Inr (Outcome ok s m r) \<Longrightarrow> is_renew op"
  by (cases op)
    (auto simp: get_order_unfolded generate_coupon_unfolded get_subscription_unfolded
       cancel_subscription_unfolded update_subscription_def
     split: sum.splits if_splits dest: return_parsed_returns)

text \<open>
  C2, amended. For every operation and every environment, a call ends in exactly one
  way (its outcome is one value: an error or a result, never both), and that way is an
  error, a parsed mapping (never from \<^verbatim>\<open>renew_subscription\<close>) or an outcome tuple
  (only from \<^verbatim>\<open>renew_subscription\<close>), with one exception: \<^verbatim>\<open>cancel_subscription\<close> on a
  response with an empty body and status 200 returns nothing and raises nothing.
\<close>

theorem call_result_or_error:
  "(result_or_error (call env self op)
      \<or> (\<exists>reference resp. op = CancelSubscription reference
            \<and> requests_request env
                (outbound env self ''DELETE'' (''subscription/'' @ reference) NoData) = Inr resp
            \<and> content resp = [] \<and> status_code resp = 200
            \<and> call env self op = Inr Nothing))
   \<and> (call env self op = Inr (Parsed m) \<longrightarrow> \<not> is_renew op)
   \<and> (call env self op = Inr (Outcome ok s msg r) \<longrightarrow> is_renew op)
   \<and> (call env self op = Inl e \<longrightarrow> call env self op \<noteq> Inr v)"
proof (intro conjI impI)
  show "result_or_error (call env self op)
      \<or> (\<exists>reference resp. op = CancelSubscription reference
            \<and> requests_request env
                (outbound env self ''DELETE'' (''subscription/'' @ reference) NoData) = Inr resp
            \<and> content resp = [] \<and> status_code resp = 200
            \<and> call env self op = Inr Nothing)"
  proof (cases "call env self op = Inr Nothing")
    case True
    from call_Nothing [OF this] True show ?thesis by blast
  next
    case False
    then have "result_or_error (call env self op)"
      by (cases "call env self op" rule: result_or_error.cases) simp_all
    then show ?thesis ..
  qed
next
  assume "call env self op = Inr (Parsed m)"
  then show "\<not> is_renew op" by (rule call_Parsed)
next
  assume "call env self op = Inr (Outcome ok s msg r)"
  then show "is_renew op" by (rule call_Outcome)
next
  assume "call env self op = Inl e"
  then show "call env self op \<noteq> Inr v" by simp
qed

theorem call_result_or_error_witness:
  "result_or_error (call (server (reply 404 '''' ''Not Found'')) acme (GetOrder ''ORD1''))
   \<and> call (server (reply 200 '''' ''OK'')) acme (CancelSubscription ''SUB1'') = Inr Nothing
   \<and> \<not> is_renew (GetOrder ''ORD1'')
   \<and> is_renew (RenewSubscription ''SUB1'' PyNone)"
proof (intro conjI)
  have "call (server (reply 404 '''' ''Not Found'')) acme (GetOrder ''ORD1'') \<noteq> Inr Nothing"
    by (simp add: get_order_unfolded server_def reply_def)
  with call_result_or_error
    [of "server (reply 404 '''' ''Not Found'')" acme "GetOrder ''ORD1''"]
  show "result_or_error (call (server (reply 404 '''' ''Not Found'')) acme (GetOrder ''ORD1''))"
    by blast
  have "\<not> result_or_error
          (call (server (reply 200 '''' ''OK'')) acme (CancelSubscription ''SUB1''))"
    by (simp add: cancel_subscription_unfolded server_def reply_def)
  with call_result_or_error
    [of "server (reply 200 '''' ''OK'')" acme "CancelSubscription ''SUB1''"]
  show "call (server (reply 200 '''' ''OK'')) acme (CancelSubscription ''SUB1'') = Inr Nothing"
    by blast
  show "\<not> is_renew (GetOrder ''ORD1'')" by simp
  show "is_renew (RenewSubscription ''SUB1'' PyNone)" by simp
qed

section \<open>The request path\<close>

lemma update_subscription_unfolded:
  "update_subscription env self reference subscription_data =
     (case xmltodict_unparse env (Fields [(''subscription'', subscription_data)]) of
        Inl e \<Rightarrow> Inl (Propagated e)
      | Inr xml \<Rightarrow>
          (case requests_request env
                  (outbound env self ''PUT'' (''subscription/'' @ reference) (Literal xml)) of
             Inl e \<Rightarrow> Inl (Propagated e)
           | Inr resp \<Rightarrow>
               if status_code resp \<noteq> 200 then
                 Inl (FastSpringException ''Could not update subscription''
                        (status_code resp) '''' (reason resp))
               else (case xmltodict_parse env (content resp) of
                       Inl e \<Rightarrow> Inl (Propagated e)
                     | Inr m \<Rightarrow> Inr (Parsed m))))"
  by (simp add: update_subscription_def request_def request_body_def return_parsed_def
      split: sum.splits)

text \<open>
  Each of the six methods reaches the server at one URL only, the join of the base URL
  with \<^verbatim>\<open>/company/{tenant}/{resource}\<close>: two environments with the same library
  functions whose servers agree on the requests for that URL give the same outcome.
\<close>

lemma call_reaches_resource:
  assumes "urlparse_urljoin env' = urlparse_urljoin env"
      and "xmltodict_unparse env' = xmltodict_unparse env"
      and "xmltodict_parse env' = xmltodict_parse env"
      and "\<And>req. url req = urlparse_urljoin env (api_base_url self)
                            (''/company/'' @ company self @ ''/'' @ resource op)
              \<Longrightarrow> requests_request env' req = requests_request env req"
  shows "call env' self op = call env self op"
proof -
  have same: "requests_request env' (outbound env' self v (resource op) b)
                = requests_request env (outbound env self v (resource op) b)"
    for v b
    using assms(1) assms(4) by (simp add: outbound_def request_path_def)
  show ?thesis
  proof (cases op)
    case (GetOrder reference)
    with same [of "''GET''" NoData] assms(3) show ?thesis
      by (simp add: get_order_unfolded cong: sum.case_cong if_cong)
  next
    case (GenerateCoupon prefix)
    with same [of "''POST''" NoData] assms(3) show ?thesis
      by (simp add: generate_coupon_unfolded cong: sum.case_cong if_cong)
  next
    case (GetSubscription reference)
    with same [of "''GET''" NoData] assms(3) show ?thesis
      by (simp add: get_subscription_unfolded cong: sum.case_cong if_cong)
  next
    case (UpdateSubscription reference subscription_data)
    with same [of "''PUT''"] assms(2) assms(3) show ?thesis
      by (simp add: update_subscription_unfolded cong: sum.case_cong if_cong)
  next
    case (CancelSubscription reference)
    with same [of "''DELETE''" NoData] assms(3) show ?thesis
      by (simp add: cancel_subscription_unfolded cong: sum.case_cong if_cong)
  next
    case (RenewSubscription reference simulate)
    with same [of "''POST''" "renew_data simulate"] show ?thesis
      by (simp add: renew_subscription_unfolded)
  qed
qed

section \<open>The path of the request URL\<close>

subsection \<open>Splitting and joining a reference that starts with one slash\<close>

lemma slash_not_scheme_char: "CHR ''/'' \<notin> set scheme_chars"
  by (simp add: scheme_chars_def)

lemma colon_not_scheme_char: "CHR '':'' \<notin> set scheme_chars"
  by (simp add: scheme_chars_def)

lemma split_rest_absolute:
  assumes "take 2 ref \<noteq> ''//''" and "CHR ''?'' \<notin> set ref" and "CHR ''#'' \<notin> set ref"
  shows "split_rest s ref = Inr (s, [], ref, [], [])"
  using assms by (simp add: split_rest_def)

lemma urlsplit_absolute:
  assumes "take 1 ref = ''/''" and "take 2 ref \<noteq> ''//''"
      and "CHR ''?'' \<notin> set ref" and "CHR ''#'' \<notin> set ref"
  shows "urlsplit ref s = Inr (s, [], ref, [], [])"
proof -
  from assms(1) obtain r where ref: "ref = CHR ''/'' # r"
    by (cases ref) auto
  have pre: "takeWhile (\<lambda>c. c \<noteq> CHR '':'') ref = CHR ''/'' # takeWhile (\<lambda>c. c \<noteq> CHR '':'') r"
    by (simp add: ref)
  have a: "(\<forall>c \<in> set (takeWhile (\<lambda>c. c \<noteq> CHR '':'') ref). c \<in> set scheme_chars) = False"
    using slash_not_scheme_char by (auto simp: pre)
  have b: "(takeWhile (\<lambda>c. c \<noteq> CHR '':'') ref = ''http'') = False"
    by (simp add: pre)
  have "urlsplit ref s = split_rest s ref"
    by (simp only: urlsplit_def Let_def a b if_False if_cancel)
  with assms show ?thesis
    by (simp add: split_rest_absolute)
qed

lemma set_takeWhile_append_stop:
  "\<not> P y \<Longrightarrow> set (takeWhile P (xs @ y # ys)) \<subseteq> set xs"
  by (induction xs) auto

lemma splitparams_last_segment:
  assumes "CHR '';'' \<notin> set path"
  shows "splitparams (front @ CHR ''/'' # path) = (front @ CHR ''/'' # path, [])"
proof -
  have "set (takeWhile (\<lambda>c. c \<noteq> CHR ''/'') (rev path @ CHR ''/'' # rev front)) \<subseteq> set (rev path)"
    by (rule set_takeWhile_append_stop) simp
  with assms have "CHR '';'' \<notin> set (takeWhile (\<lambda>c. c \<noteq> CHR ''/'') (rev path @ CHR ''/'' # rev front))"
    by auto
  then show ?thesis
    by (simp add: splitparams_def Let_def)
qed

lemma urlparse_absolute:
  assumes "take 1 (front @ CHR ''/'' # path) = ''/''"
      and "take 2 (front @ CHR ''/'' # path) \<noteq> ''//''"
      and "CHR ''?'' \<notin> set (front @ CHR ''/'' # path)"
      and "CHR ''#'' \<notin> set (front @ CHR ''/'' # path)"
      and "CHR '';'' \<notin> set path"
  shows "urlparse (front @ CHR ''/'' # path) s = Inr (s, [], front @ CHR ''/'' # path, [], [], [])"
  using urlsplit_absolute [OF assms(1-4), of s] splitparams_last_segment [OF assms(5), of front]
  by (simp add: urlparse_def)

lemma uses_relative_netloc: "s \<in> set uses_relative \<Longrightarrow> s \<in> set uses_netloc"
  by (auto simp: uses_relative_def uses_netloc_def)

lemma urlparse_urlsplit:
  "urlparse base s = Inr (bs, bn, bp, bpar, bq, bf)
    \<Longrightarrow> \<exists>p. urlsplit base s = Inr (bs, bn, p, bq, bf)"
  by (auto simp: urlparse_def Let_def split: sum.splits prod.splits if_splits)

lemma urlsplit_urlparse:
  "urlsplit base s = Inr (bs, bn, bp, bq, bf)
    \<Longrightarrow> \<exists>p par. urlparse base s = Inr (bs, bn, p, par, bq, bf)"
  by (auto simp: urlparse_def Let_def split: sum.splits prod.splits if_splits)

lemma urlparse_raises: "urlparse base s = Inl e \<longleftrightarrow> urlsplit base s = Inl e"
  by (auto simp: urlparse_def Let_def split: sum.splits prod.splits if_splits)

lemma lower_char_scheme:
  "c \<in> set scheme_chars \<Longrightarrow> lower_char c \<in> set scheme_chars \<and> lower_char (lower_char c) = lower_char c"
  by (auto simp: scheme_chars_def lower_char_def)

lemma lower_scheme:
  assumes "\<forall>c \<in> set s. c \<in> set scheme_chars"
  shows "(\<forall>c \<in> set (lower s). c \<in> set scheme_chars) \<and> lower (lower s) = lower s"
  using assms by (induction s) (auto simp: lower_def lower_char_scheme)

lemma split_rest_parts:
  assumes "split_rest sch x = Inr (a, n, p, q, f)"
  shows "a = sch \<and> (\<forall>c \<in> set n. c \<notin> set ''/?#'')
       \<and> \<not> ((CHR ''['' \<in> set n \<and> CHR '']'' \<notin> set n) \<or> (CHR '']'' \<in> set n \<and> CHR ''['' \<notin> set n))"
proof (cases "take 2 x = ''//''")
  case True
  with assms show ?thesis
    by (auto simp: split_rest_def splitnetloc_def Let_def split: if_splits prod.splits
        dest!: set_takeWhileD)
next
  case False
  with assms show ?thesis
    by (auto simp: split_rest_def Let_def split: if_splits prod.splits)
qed

lemma urlsplit_parts:
  assumes "urlsplit base '''' = Inr (bs, bn, bp, bq, bf)"
  shows "(\<forall>c \<in> set bn. c \<notin> set ''/?#'')
       \<and> \<not> ((CHR ''['' \<in> set bn \<and> CHR '']'' \<notin> set bn) \<or> (CHR '']'' \<in> set bn \<and> CHR ''['' \<notin> set bn))
       \<and> (bs = [] \<or> (\<forall>c \<in> set bs. c \<in> set scheme_chars) \<and> lower bs = bs)"
proof -
  let ?pre = "takeWhile (\<lambda>c. c \<noteq> CHR '':'') base"
  from assms consider
      (plain) "split_rest '''' base = Inr (bs, bn, bp, bq, bf)"
    | (http) x where "?pre = ''http''" "split_rest (lower ?pre) x = Inr (bs, bn, bp, bq, bf)"
    | (scheme) x where "\<forall>c \<in> set ?pre. c \<in> set scheme_chars"
        "split_rest (lower ?pre) x = Inr (bs, bn, bp, bq, bf)"
    unfolding urlsplit_def Let_def by (auto split: if_splits)
  then show ?thesis
  proof cases
    case plain
    from split_rest_parts [OF this] show ?thesis by simp
  next
    case http
    from split_rest_parts [OF http(2)] http(1) show ?thesis
      by (simp add: lower_def lower_char_def scheme_chars_def)
  next
    case scheme
    from split_rest_parts [OF scheme(2)] lower_scheme [OF scheme(1)] show ?thesis
      by simp
  qed
qed

lemma takeWhile_dropWhile_stop:
  assumes "\<forall>c \<in> set xs. P c" and "\<not> P y"
  shows "takeWhile P (xs @ y # ys) = xs" and "dropWhile P (xs @ y # ys) = y # ys"
  using assms by (induction xs) auto

lemma urlsplit_slash_first: "urlsplit (CHR ''/'' # x) s = split_rest s (CHR ''/'' # x)"
proof -
  have pre: "takeWhile (\<lambda>c. c \<noteq> CHR '':'') (CHR ''/'' # x)
               = CHR ''/'' # takeWhile (\<lambda>c. c \<noteq> CHR '':'') x"
    by simp
  have a: "(\<forall>c \<in> set (takeWhile (\<lambda>c. c \<noteq> CHR '':'') (CHR ''/'' # x)). c \<in> set scheme_chars) = False"
    using slash_not_scheme_char by (auto simp: pre)
  have b: "(takeWhile (\<lambda>c. c \<noteq> CHR '':'') (CHR ''/'' # x) = ''http'') = False"
    by (simp add: pre)
  show ?thesis
    by (simp only: urlsplit_def Let_def a b if_False if_cancel)
qed

lemma split_rest_with_netloc:
  assumes n: "\<forall>c \<in> set n. c \<notin> set ''/?#''"
      and br: "\<not> ((CHR ''['' \<in> set n \<and> CHR '']'' \<notin> set n) \<or> (CHR '']'' \<in> set n \<and> CHR ''['' \<notin> set n))"
      and ref: "take 1 ref = ''/''" "CHR ''?'' \<notin> set ref" "CHR ''#'' \<notin> set ref"
  shows "split_rest a (''//'' @ n @ ref) = Inr (a, n, ref, [], [])"
proof -
  from ref(1) obtain r where r: "ref = CHR ''/'' # r"
    by (cases ref) auto
  have "takeWhile (\<lambda>c. c \<notin> set ''/?#'') (n @ CHR ''/'' # r) = n"
    and "dropWhile (\<lambda>c. c \<notin> set ''/?#'') (n @ CHR ''/'' # r) = CHR ''/'' # r"
    using n by (simp_all add: takeWhile_dropWhile_stop)
  then have "splitnetloc (''//'' @ n @ ref) 2 = (n, ref)"
    by (simp add: splitnetloc_def r)
  moreover have "take 2 (''//'' @ n @ ref) = ''//''"
    by simp
  ultimately show ?thesis
    using br ref(2,3) by (simp add: split_rest_def del: append.simps)
qed

lemma urlsplit_with_origin:
  assumes bs: "bs \<noteq> []" "\<forall>c \<in> set bs. c \<in> set scheme_chars" "lower bs = bs"
      and n: "\<forall>c \<in> set n. c \<notin> set ''/?#''"
      and br: "\<not> ((CHR ''['' \<in> set n \<and> CHR '']'' \<notin> set n) \<or> (CHR '']'' \<in> set n \<and> CHR ''['' \<notin> set n))"
      and ref: "take 1 ref = ''/''" "CHR ''?'' \<notin> set ref" "CHR ''#'' \<notin> set ref"
  shows "urlsplit (bs @ '':'' @ ''//'' @ n @ ref) s = Inr (bs, n, ref, [], [])"
proof -
  let ?rest = "''//'' @ n @ ref"
  have nocolon: "\<forall>c \<in> set bs. c \<noteq> CHR '':''"
    using bs(2) colon_not_scheme_char by auto
  have pre: "takeWhile (\<lambda>c. c \<noteq> CHR '':'') (bs @ CHR '':'' # ?rest) = bs"
    and post: "dropWhile (\<lambda>c. c \<noteq> CHR '':'') (bs @ CHR '':'' # ?rest) = CHR '':'' # ?rest"
    using nocolon by (simp_all add: takeWhile_dropWhile_stop del: append.simps)
  have digit: "\<exists>c \<in> set ?rest. c \<notin> set ''0123456789''"
    by simp
  have "urlsplit (bs @ CHR '':'' # ?rest) s = split_rest (lower bs) ?rest"
    unfolding urlsplit_def Let_def pre post using bs(1,2) digit
    by (simp del: append.simps)
  then show ?thesis
    using split_rest_with_netloc [OF n br ref, of bs] bs(3) by simp
qed

lemma urljoin_of_parsed:
  assumes r: "urlparse ref bs = Inr (bs, [], ref, [], [], [])"
      and t: "take 1 ref = ''/''" "take 2 ref \<noteq> ''//''"
      and b: "urlparse base '''' = Inr (bs, bn, p, par, bq, bf)"
  shows "urljoin base ref =
           Joined (if base = [] \<or> bs \<notin> set uses_relative then ref
                   else (if bs \<noteq> [] then bs @ '':'' else [])
                        @ (if bn \<noteq> [] \<or> bs \<noteq> [] then ''//'' @ bn else [])
                        @ ref)"
proof -
  from t(1) have nonempty: "ref \<noteq> []"
    by auto
  show ?thesis
    using r t b nonempty
    by (simp add: urljoin_def uses_relative_netloc urlunparse_def urlunsplit_def)
qed

lemma urljoin_absolute:
  assumes ref: "take 1 (front @ CHR ''/'' # path) = ''/''"
      "take 2 (front @ CHR ''/'' # path) \<noteq> ''//''"
      "CHR ''?'' \<notin> set (front @ CHR ''/'' # path)"
      "CHR ''#'' \<notin> set (front @ CHR ''/'' # path)"
      "CHR '';'' \<notin> set path"
    and base: "urlsplit base '''' = Inr (bs, bn, bp, bq, bf)"
  shows "urljoin base (front @ CHR ''/'' # path) =
           Joined (if base = [] \<or> bs \<notin> set uses_relative then front @ CHR ''/'' # path
                   else (if bs \<noteq> [] then bs @ '':'' else [])
                        @ (if bn \<noteq> [] \<or> bs \<noteq> [] then ''//'' @ bn else [])
                        @ front @ CHR ''/'' # path)"
proof -
  from urlsplit_urlparse [OF base] obtain p par
    where b: "urlparse base '''' = Inr (bs, bn, p, par, bq, bf)"
    by blast
  have r: "urlparse (front @ CHR ''/'' # path) bs
             = Inr (bs, [], front @ CHR ''/'' # path, [], [], [])"
    using ref by (rule urlparse_absolute)
  show ?thesis
    by (rule urljoin_of_parsed [OF r ref(1,2) b])
qed

lemma url_path_absolute:
  assumes "take 1 ref = ''/''" and "take 2 ref \<noteq> ''//''"
      and "CHR ''?'' \<notin> set ref" and "CHR ''#'' \<notin> set ref"
  shows "url_path ref = Some ref"
  using urlsplit_absolute [OF assms, of "''''"] by (simp add: url_path_def)

lemma url_path_urljoin:
  assumes ref: "take 1 (front @ CHR ''/'' # path) = ''/''"
      "take 2 (front @ CHR ''/'' # path) \<noteq> ''//''"
      "CHR ''?'' \<notin> set (front @ CHR ''/'' # path)"
      "CHR ''#'' \<notin> set (front @ CHR ''/'' # path)"
      "CHR '';'' \<notin> set path"
    and base: "urlsplit base '''' = Inr (bs, bn, bp, bq, bf)"
  shows "\<exists>u. urljoin base (front @ CHR ''/'' # path) = Joined u
           \<and> url_path u = Some (front @ CHR ''/'' # path)"
proof -
  let ?ref = "front @ CHR ''/'' # path"
  note parts = urlsplit_parts [OF base]
  note join = urljoin_absolute [OF ref base]
  have plain: "url_path ?ref = Some ?ref"
    using ref(1-4) by (rule url_path_absolute)
  consider (same) "base = [] \<or> bs \<notin> set uses_relative \<or> (bs = [] \<and> bn = [])"
    | (host) "base \<noteq> []" "bs \<in> set uses_relative" "bs = []" "bn \<noteq> []"
    | (scheme) "base \<noteq> []" "bs \<in> set uses_relative" "bs \<noteq> []"
    by blast
  then show ?thesis
  proof cases
    case same
    then have "urljoin base ?ref = Joined ?ref"
      using join by auto
    with plain show ?thesis by simp
  next
    case host
    then have j: "urljoin base ?ref = Joined (''//'' @ bn @ ?ref)"
      using join by simp
    have "urlsplit (''//'' @ bn @ ?ref) '''' = Inr ('''', bn, ?ref, [], [])"
      using urlsplit_slash_first [of "CHR ''/'' # bn @ ?ref" "''''"]
        split_rest_with_netloc [of bn ?ref "''''"] parts ref(1,3,4)
      by simp
    then have "url_path (''//'' @ bn @ ?ref) = Some ?ref"
      by (simp add: url_path_def)
    with j show ?thesis by simp
  next
    case scheme
    then have j: "urljoin base ?ref = Joined (bs @ '':'' @ ''//'' @ bn @ ?ref)"
      using join by simp
    have "urlsplit (bs @ '':'' @ ''//'' @ bn @ ?ref) '''' = Inr (bs, bn, ?ref, [], [])"
      using urlsplit_with_origin [of bs bn ?ref "''''"] parts scheme(3) ref(1,3,4)
      by blast
    then have "url_path (bs @ '':'' @ ''//'' @ bn @ ?ref) = Some ?ref"
      by (simp add: url_path_def)
    with j show ?thesis by simp
  qed
qed

lemma split_rest_trailing_slash:
  assumes "split_rest a x = Inr p"
  shows "\<exists>p'. split_rest a' (x @ ''/'') = Inr p'"
proof (cases "take 2 x = ''//''")
  case True
  then have "take 2 (x @ ''/'') = ''//''" and "drop 2 (x @ ''/'') = drop 2 x @ ''/''"
    by (cases x; cases "tl x"; simp)+
  moreover have "takeWhile (\<lambda>c. c \<notin> set ''/?#'') (drop 2 x @ ''/'')
                   = takeWhile (\<lambda>c. c \<notin> set ''/?#'') (drop 2 x)"
    by (simp add: takeWhile_tail)
  ultimately show ?thesis
    using assms True
    by (auto simp: split_rest_def splitnetloc_def Let_def split: if_splits prod.splits)
next
  case False
  show ?thesis
  proof (cases "x = ''/''")
    case True
    then show ?thesis
      by (simp add: split_rest_def splitnetloc_def split_once_def)
  next
    case False
    with \<open>take 2 x \<noteq> ''//''\<close> have "take 2 (x @ ''/'') \<noteq> ''//''"
      by (cases x; cases "tl x"; auto)
    then show ?thesis
      by (auto simp: split_rest_def Let_def split: if_splits prod.splits)
  qed
qed

lemma urlsplit_trailing_slash:
  assumes "urlsplit base s = Inr p"
  shows "\<exists>p'. urlsplit (base @ ''/'') s = Inr p'"
proof (cases "CHR '':'' \<in> set base")
  case False
  then have "takeWhile (\<lambda>c. c \<noteq> CHR '':'') base = base"
    and "dropWhile (\<lambda>c. c \<noteq> CHR '':'') base = []"
    and "dropWhile (\<lambda>c. c \<noteq> CHR '':'') (base @ ''/'') = []"
    by (auto simp: takeWhile_eq_all_conv dropWhile_eq_Nil_conv)
  then have "urlsplit base s = split_rest s base"
    and "urlsplit (base @ ''/'') s = split_rest s (base @ ''/'')"
    by (simp_all add: urlsplit_def Let_def)
  with assms split_rest_trailing_slash show ?thesis
    by metis
next
  case True
  define pre where "pre = takeWhile (\<lambda>c. c \<noteq> CHR '':'') base"
  define rest where "rest = tl (dropWhile (\<lambda>c. c \<noteq> CHR '':'') base)"
  from True have post: "dropWhile (\<lambda>c. c \<noteq> CHR '':'') base \<noteq> []"
    by (simp add: dropWhile_eq_Nil_conv)
  from True have pre': "takeWhile (\<lambda>c. c \<noteq> CHR '':'') (base @ ''/'') = pre"
    and post': "dropWhile (\<lambda>c. c \<noteq> CHR '':'') (base @ ''/'')
                  = dropWhile (\<lambda>c. c \<noteq> CHR '':'') base @ ''/''"
    by (auto simp: pre_def takeWhile_append1 dropWhile_append1)
  from post have rest': "tl (dropWhile (\<lambda>c. c \<noteq> CHR '':'') base @ ''/'') = rest @ ''/''"
    by (simp add: rest_def)
  have one: "urlsplit base s =
      (if pre \<noteq> [] then
         if pre = ''http'' then split_rest (lower pre) rest
         else if \<forall>c \<in> set pre. c \<in> set scheme_chars then
           (if rest = [] \<or> (\<exists>c \<in> set rest. c \<notin> set ''0123456789'')
            then split_rest (lower pre) rest else split_rest s base)
         else split_rest s base
       else split_rest s base)"
    using post unfolding urlsplit_def Let_def pre_def rest_def by simp
  have nondigit: "\<exists>c \<in> set (rest @ ''/''). c \<notin> set ''0123456789''"
    by simp
  have two: "urlsplit (base @ ''/'') s =
      (if pre \<noteq> [] then
         if pre = ''http'' then split_rest (lower pre) (rest @ ''/'')
         else if \<forall>c \<in> set pre. c \<in> set scheme_chars then split_rest (lower pre) (rest @ ''/'')
         else split_rest s (base @ ''/'')
       else split_rest s (base @ ''/''))"
    unfolding urlsplit_def Let_def pre' post' rest' using nondigit post by simp
  have digits: "\<exists>p'. split_rest a (rest @ ''/'') = Inr p'"
    if "rest \<noteq> []" "\<not> (\<exists>c \<in> set rest. c \<notin> set ''0123456789'')" for a
  proof -
    from that have "take 2 (rest @ ''/'') \<noteq> ''//''"
      by (cases rest) auto
    then show ?thesis
      by (auto simp: split_rest_def Let_def split: if_splits prod.splits)
  qed
  consider (whole) "urlsplit base s = split_rest s base"
        "urlsplit (base @ ''/'') s = split_rest s (base @ ''/'')"
    | (scheme) "urlsplit base s = split_rest (lower pre) rest"
        "urlsplit (base @ ''/'') s = split_rest (lower pre) (rest @ ''/'')"
    | (port) "rest \<noteq> []" "\<not> (\<exists>c \<in> set rest. c \<notin> set ''0123456789'')"
        "urlsplit (base @ ''/'') s = split_rest (lower pre) (rest @ ''/'')"
    using one two by (auto split: if_splits)
  then show ?thesis
  proof cases
    case whole
    with assms split_rest_trailing_slash show ?thesis by metis
  next
    case scheme
    with assms split_rest_trailing_slash show ?thesis by metis
  next
    case port
    with digits show ?thesis by metis
  qed
qed

subsection \<open>The request URL\<close>

lemma joins_as_urlparse_server: "joins_as_urlparse (server resp)"
  by (simp add: joins_as_urlparse_def server_def joined_url_def)

text \<open>
  C7, as stated, fails for a tenant name with a question mark in it: the client puts
  the name into the reference as it is, the join keeps it, and the path component of
  the request URL ends at the question mark. For the tenant \<^verbatim>\<open>ac?me\<close> the path is
  \<^verbatim>\<open>/company/ac\<close>, not \<^verbatim>\<open>/company/ac?me/order/ORD1\<close>.
\<close>

theorem request_path_cut_at_query:
  "url (outbound (server (reply 200 ''<order/>'' ''OK'')) (acme\<lparr>company := ''ac?me''\<rparr>)
          ''GET'' ''order/ORD1'' NoData)
     = ''https://api.fastspring.com/company/ac?me/order/ORD1''
   \<and> url_path
       (url (outbound (server (reply 200 ''<order/>'' ''OK'')) (acme\<lparr>company := ''ac?me''\<rparr>)
               ''GET'' ''order/ORD1'' NoData))
     = Some ''/company/ac''
   \<and> ''/company/ac'' \<noteq> ''/company/'' @ ''ac?me'' @ ''/'' @ ''order/ORD1''"
  by (simp add: outbound_def request_path_def server_def acme_def init_def joined_url_def
      urljoin_def urlparse_def urlsplit_def split_rest_def splitnetloc_def split_once_def
      splitparams_def urlunparse_def urlunsplit_def url_path_def lower_def lower_char_def
      scheme_chars_def uses_relative_def uses_netloc_def uses_params_def)

text \<open>
  C7, amended. For every method, every base URL the library can split, every tenant
  name without \<^verbatim>\<open>?\<close> and \<^verbatim>\<open>#\<close> and every resource path without \<^verbatim>\<open>?\<close>,
  \<^verbatim>\<open>#\<close> and \<^verbatim>\<open>;\<close>: the URL of the request is what the library's join returns
  for the base URL and \<^verbatim>\<open>/company/{tenant}/{resource}\<close>, the path component of that
  URL is exactly \<^verbatim>\<open>/company/{tenant}/{resource}\<close>, and it is the same when the
  base URL is given with one more slash at its end.
\<close>

theorem request_path_form:
  assumes env: "joins_as_urlparse env"
      and query: "CHR ''?'' \<notin> set (company self) \<union> set path"
      and fragment: "CHR ''#'' \<notin> set (company self) \<union> set path"
      and params: "CHR '';'' \<notin> set path"
      and base: "urlsplit (api_base_url self) '''' = Inr parts"
  shows "urljoin (api_base_url self) (''/company/'' @ company self @ ''/'' @ path)
           = Joined (url (outbound env self verb' path b))
       \<and> url_path (url (outbound env self verb' path b))
           = Some (''/company/'' @ company self @ ''/'' @ path)
       \<and> url_path (url (outbound env (self\<lparr>api_base_url := api_base_url self @ ''/''\<rparr>)
                           verb' path b))
           = Some (''/company/'' @ company self @ ''/'' @ path)"
proof -
  define front where "front = ''/company/'' @ company self"
  define ref where "ref = front @ CHR ''/'' # path"
  have ref_eq: "''/company/'' @ company self @ ''/'' @ path = ref"
    by (simp add: ref_def front_def)
  have ref: "take 1 (front @ CHR ''/'' # path) = ''/''"
      "take 2 (front @ CHR ''/'' # path) \<noteq> ''//''"
      "CHR ''?'' \<notin> set (front @ CHR ''/'' # path)"
      "CHR ''#'' \<notin> set (front @ CHR ''/'' # path)"
    using query fragment by (simp_all add: front_def)
  have sent: "url (outbound env s verb' path b) = urlparse_urljoin env (api_base_url s) ref"
    if "company s = company self" for s
    using that by (simp add: outbound_def request_path_def ref_def front_def)
  have joined: "urljoin (api_base_url s) ref = Joined (url (outbound env s verb' path b))
                  \<and> url_path (url (outbound env s verb' path b)) = Some ref"
    if c: "company s = company self" and p: "urlsplit (api_base_url s) '''' = Inr q" for s q
  proof -
    obtain bs bn bp bq bf where "q = (bs, bn, bp, bq, bf)"
      by (cases q)
    with p have "urlsplit (api_base_url s) '''' = Inr (bs, bn, bp, bq, bf)"
      by simp
    from url_path_urljoin [OF ref params this] obtain u
      where u: "urljoin (api_base_url s) ref = Joined u" "url_path u = Some ref"
      unfolding ref_def by blast
    from env u(1) have "urlparse_urljoin env (api_base_url s) ref = u"
      unfolding joins_as_urlparse_def by blast
    with sent [OF c] u show ?thesis
      by simp
  qed
  from urlsplit_trailing_slash [OF base] obtain parts'
    where base': "urlsplit (api_base_url self @ ''/'') '''' = Inr parts'"
    by blast
  have "urljoin (api_base_url self) ref = Joined (url (outbound env self verb' path b))
      \<and> url_path (url (outbound env self verb' path b)) = Some ref"
    using joined [of self parts] base by simp
  moreover
  have "url_path (url (outbound env (self\<lparr>api_base_url := api_base_url self @ ''/''\<rparr>)
                        verb' path b)) = Some ref"
    using joined [of "self\<lparr>api_base_url := api_base_url self @ ''/''\<rparr>" parts'] base'
    by simp
  ultimately show ?thesis
    unfolding ref_eq by blast
qed

theorem request_path_form_witness:
  "joins_as_urlparse (server (reply 200 ''<order/>'' ''OK''))
   \<and> urlsplit (api_base_url acme) '''' = Inr (''https'', ''api.fastspring.com'', [], [], [])
   \<and> url_path
       (url (outbound (server (reply 200 ''<order/>'' ''OK'')) acme ''GET'' ''order/ORD1'' NoData))
     = Some ''/company/acme/order/ORD1''
   \<and> url_path
       (url (outbound (server (reply 200 ''<order/>'' ''OK''))
               (acme\<lparr>api_base_url := ''https://api.fastspring.com/''\<rparr>)
               ''GET'' ''order/ORD1'' NoData))
     = Some ''/company/acme/order/ORD1''"
proof -
  let ?env = "server (reply 200 ''<order/>'' ''OK'')"
  have e: "joins_as_urlparse ?env"
    by (rule joins_as_urlparse_server)
  have q: "CHR ''?'' \<notin> set (company acme) \<union> set ''order/ORD1''"
    and f: "CHR ''#'' \<notin> set (company acme) \<union> set ''order/ORD1''"
    and p: "CHR '';'' \<notin> set ''order/ORD1''"
    by (simp_all add: acme_def init_def)
  have b: "urlsplit (api_base_url acme) '''' = Inr (''https'', ''api.fastspring.com'', [], [], [])"
    by (simp add: acme_def init_def urlsplit_def split_rest_def splitnetloc_def
        split_once_def lower_def lower_char_def scheme_chars_def)
  from request_path_form [OF e q f p b, of "''GET''" NoData] e b
  show ?thesis
    by (simp add: acme_def init_def)
qed

end
